theory Spec2Isabelle
  imports Complex_Main "HOL-Library.Word" "HOL-Library.Sublist"
begin

section \<open>The sharp transformer of remix-image: option model\<close>

text \<open>
  The source is \<^verbatim>\<open>src/sharpTransformer.ts\<close>. It declares the option types, the two
  capability sets and one object, \<^verbatim>\<open>sharpTransformer\<close>, whose \<^verbatim>\<open>transform\<close> drives
  the external engine \<^verbatim>\<open>sharp\<close> through a chain of method calls.

  A JavaScript \<^verbatim>\<open>number\<close> is an IEEE double. No arithmetic is done on numbers here:
  they are tested for truthiness, compared with zero and handed to the engine. The
  model keeps the special values apart and over-approximates the finite doubles by the
  reals (\<open>-0\<close> and \<open>0\<close> compare equal and are both falsy, so one zero is enough).
\<close>

datatype number = Fin real | PosInf | NegInf | NaN

text \<open>Truthiness of a number: \<^verbatim>\<open>0\<close>, \<^verbatim>\<open>-0\<close> and \<^verbatim>\<open>NaN\<close> are falsy.\<close>

fun truthy :: "number \<Rightarrow> bool" where
  "truthy (Fin v) = (v \<noteq> 0)"
| "truthy PosInf = True"
| "truthy NegInf = True"
| "truthy NaN = False"

text \<open>\<^verbatim>\<open>n != 0\<close>: every comparison with \<^verbatim>\<open>NaN\<close> is false, so \<^verbatim>\<open>NaN != 0\<close> is true.\<close>

fun neq_zero :: "number \<Rightarrow> bool" where
  "neq_zero (Fin v) = (v \<noteq> 0)"
| "neq_zero PosInf = True"
| "neq_zero NegInf = True"
| "neq_zero NaN = True"

text \<open>\<^verbatim>\<open>n > 0\<close>.\<close>

fun gt_zero :: "number \<Rightarrow> bool" where
  "gt_zero (Fin v) = (0 < v)"
| "gt_zero PosInf = True"
| "gt_zero NegInf = False"
| "gt_zero NaN = False"

text \<open>\<^verbatim>\<open>n < 0\<close>.\<close>

fun lt_zero :: "number \<Rightarrow> bool" where
  "lt_zero (Fin v) = (v < 0)"
| "lt_zero PosInf = False"
| "lt_zero NegInf = True"
| "lt_zero NaN = False"

type_synonym Color = "number \<times> number \<times> number \<times> number"

datatype MimeType = SVG | JPEG | PNG | GIF | WEBP | BMP | TIFF | AVIF

datatype ImageFit = Contain | Cover | Fill | Inside | Outside

text \<open>\<^verbatim>\<open>position?: ImagePosition | string | number\<close>: a string or a number.\<close>

datatype Position = PositionString string | PositionNumber number

datatype FlipDirection = Horizontal | Vertical | Both

record CropOptions =
  crop_x :: number
  crop_y :: number
  crop_width :: number
  crop_height :: number

text \<open>
  \<^verbatim>\<open>Required<TransformOptions>\<close>: every field is there; the fields declared
  \<^verbatim>\<open>T | null\<close> may still hold \<^verbatim>\<open>null\<close>, which is \<open>None\<close>. The fields
  \<^verbatim>\<open>rotate\<close> and \<^verbatim>\<open>flip\<close> are \<open>rotate_opt\<close> and \<open>flip_opt\<close> here, clear of the
  list function \<open>rotate\<close> and of the engine's method \<^verbatim>\<open>flip\<close>; the fields of
  \<^verbatim>\<open>CropOptions\<close> carry the prefix \<open>crop_\<close>, since \<^verbatim>\<open>width\<close> and \<^verbatim>\<open>height\<close> are
  fields of both interfaces.
\<close>

record TransformOptions =
  width :: "number option"
  height :: "number option"
  contentType :: MimeType
  fit :: ImageFit
  position :: Position
  background :: Color
  quality :: number
  compressionLevel :: number
  loop :: number
  delay :: number
  blurRadius :: "number option"
  rotate_opt :: "number option"
  flip_opt :: "FlipDirection option"
  crop :: "CropOptions option"

text \<open>
  The first argument of \<^verbatim>\<open>transform\<close>; its \<^verbatim>\<open>contentType\<close> is \<open>input_contentType\<close>
  here, apart from the field of the options.
\<close>

record Input =
  url :: string
  data :: "8 word list"
  input_contentType :: MimeType

section \<open>The engine\<close>

text \<open>
  \<^verbatim>\<open>sharp\<close> is an external library. What the source decides is which of its methods
  are called on the image object, with which arguments and in which order; a \<open>call\<close> is
  one such method call.
\<close>

record RGBA =
  rgba_r :: number
  rgba_g :: number
  rgba_b :: number
  rgba_alpha :: number

datatype call =
    EnsureAlpha number
  | Extract number number number number
      \<comment> \<open>left, top, width, height\<close>
  | Resize "number option" "number option" ImageFit Position RGBA
      \<comment> \<open>width, height, fit, position, background\<close>
  | Flop
  | Flip
  | Rotate number RGBA
      \<comment> \<open>angle, background\<close>
  | Blur number
  | Jpeg number bool bool
      \<comment> \<open>quality, progressive, force\<close>
  | Png bool number bool
      \<comment> \<open>progressive, compressionLevel, force\<close>
  | Gif number number bool
      \<comment> \<open>loop, delay, force\<close>
  | Webp number bool
      \<comment> \<open>quality, force\<close>
  | Tiff number bool
  | Avif number bool

text \<open>
  The engine is a parameter of the model, with the three entry points the source uses:
  the constructor \<^verbatim>\<open>sharp(data, {animated})\<close>, a method call on an image object, and
  \<^verbatim>\<open>toBuffer\<close>. Each of them either throws an error of the engine (\<open>Inl\<close>) or
  returns: the constructor and a method the image object (a method returns the object
  it was called on, in its new state), \<^verbatim>\<open>toBuffer\<close> the encoded bytes.
\<close>

record ('e, 'img) engine =
  sharp :: "8 word list \<Rightarrow> bool \<Rightarrow> 'e + 'img"
  method_call :: "call \<Rightarrow> 'img \<Rightarrow> 'e + 'img"
  toBuffer :: "'img \<Rightarrow> 'e + 8 word list"

text \<open>
  A run of \<^verbatim>\<open>transform\<close> up to some statement: the method calls made so far, oldest
  first, and either the image object or the error that has ended the run. The source
  has no \<^verbatim>\<open>try\<close> and no \<^verbatim>\<open>catch\<close>: once a call has thrown, no later statement runs.
\<close>

type_synonym ('e, 'img) run = "call list \<times> ('e + 'img)"

text \<open>\<^verbatim>\<open>const image = sharp(data, {animated: true})\<close>: no method has been called yet.\<close>

definition sharp_new :: "('e, 'img) engine \<Rightarrow> 8 word list \<Rightarrow> bool \<Rightarrow> ('e, 'img) run" where
  "sharp_new eng d a = ([], sharp eng d a)"

text \<open>
  One method call \<^verbatim>\<open>image.m(...)\<close>. In a run that has ended it is not made; otherwise
  it is made, and it returns the object or throws.
\<close>

fun invoke :: "('e, 'img) engine \<Rightarrow> call \<Rightarrow> ('e, 'img) run \<Rightarrow> ('e, 'img) run" where
  "invoke eng c (made, Inl e) = (made, Inl e)"
| "invoke eng c (made, Inr img) = (made @ [c], method_call eng c img)"

section \<open>The capability descriptor\<close>

definition supportedInputs :: "MimeType set" where
  "supportedInputs = {JPEG, PNG, GIF, WEBP, TIFF, AVIF}"

definition supportedOutputs :: "MimeType set" where
  "supportedOutputs = {JPEG, PNG, GIF, WEBP, TIFF, AVIF}"

section \<open>transform\<close>

text \<open>
  Lines 140 to 145: \<^verbatim>\<open>fixedBackground\<close>, the object built from the four entries of
  \<^verbatim>\<open>background\<close>.
\<close>

definition fixedBackground :: "TransformOptions \<Rightarrow> RGBA" where
  "fixedBackground opts =
    (case background opts of (c0, c1, c2, c3) \<Rightarrow>
       \<lparr>rgba_r = c0, rgba_g = c1, rgba_b = c2, rgba_alpha = c3\<rparr>)"

text \<open>
  Lines 147 to 216 of the source: the statements of \<^verbatim>\<open>transform\<close> up to, and not
  including, \<^verbatim>\<open>.toBuffer()\<close>. Each statement of the source is one binding of
  \<open>img\<close>, the run so far; the source's variable is \<^verbatim>\<open>image\<close>.
  \<^verbatim>\<open>if (crop)\<close> and \<^verbatim>\<open>if (flip)\<close> test an object and a non-empty string against
  \<^verbatim>\<open>null\<close>; \<^verbatim>\<open>rotate && rotate != 0\<close> and \<^verbatim>\<open>blurRadius && blurRadius > 0\<close> test a
  number or \<^verbatim>\<open>null\<close> for truthiness first. No guard reads the image object, so in a
  run that has ended the remaining bindings change nothing.
\<close>

definition transform_image ::
  "('e, 'img) engine \<Rightarrow> TransformOptions \<Rightarrow> 8 word list \<Rightarrow> ('e, 'img) run" where
  "transform_image eng opts d =
    (let img = sharp_new eng d True;
         img = invoke eng (EnsureAlpha (Fin 1)) img;
         img =
           (case crop opts of
              None \<Rightarrow> img
            | Some c \<Rightarrow>
                invoke eng (Extract (crop_x c) (crop_y c) (crop_width c) (crop_height c)) img);
         img =
           (if width opts \<noteq> None \<or> height opts \<noteq> None
            then invoke eng (Resize (width opts) (height opts) (fit opts) (position opts)
                               (fixedBackground opts)) img
            else img);
         img =
           (case flip_opt opts of
              None \<Rightarrow> img
            | Some f \<Rightarrow>
                (let img = (if f = Horizontal \<or> f = Both then invoke eng Flop img else img);
                     img = (if f = Vertical \<or> f = Both then invoke eng Flip img else img)
                 in img));
         img =
           (case rotate_opt opts of
              None \<Rightarrow> img
            | Some a \<Rightarrow>
                if truthy a \<and> neq_zero a
                then invoke eng (Rotate a (fixedBackground opts)) img
                else img);
         img =
           (case blurRadius opts of
              None \<Rightarrow> img
            | Some s \<Rightarrow> if truthy s \<and> gt_zero s then invoke eng (Blur s) img else img);
         img = invoke eng (Jpeg (quality opts) True (contentType opts = JPEG)) img;
         img = invoke eng (Png True (compressionLevel opts) (contentType opts = PNG)) img;
         img = invoke eng (Gif (loop opts) (delay opts) (contentType opts = GIF)) img;
         img = invoke eng (Webp (quality opts) (contentType opts = WEBP)) img;
         img = invoke eng (Tiff (quality opts) (contentType opts = TIFF)) img;
         img = invoke eng (Avif (quality opts) (contentType opts = AVIF)) img
     in img)"

text \<open>
  \<^verbatim>\<open>transform\<close> itself. An error thrown before \<^verbatim>\<open>toBuffer\<close> is the rejection of
  \<^verbatim>\<open>transform\<close>; otherwise \<^verbatim>\<open>toBuffer\<close> is awaited, and it rejects with an error of
  the engine or yields bytes, which \<^verbatim>\<open>new Uint8Array(result)\<close> copies. The source has
  no \<^verbatim>\<open>throw\<close> of its own. Of its first argument it binds \<^verbatim>\<open>data\<close> only.
\<close>

definition transform ::
  "('e, 'img) engine \<Rightarrow> Input \<Rightarrow> TransformOptions \<Rightarrow> 'e + 8 word list" where
  "transform eng inp opts =
    (case snd (transform_image eng opts (data inp)) of
       Inl e \<Rightarrow> Inl e
     | Inr img \<Rightarrow>
         (case toBuffer eng img of
            Inl e \<Rightarrow> Inl e
          | Inr result \<Rightarrow> Inr result))"

text \<open>
  The descriptor object, without its function field, which is \<open>transform\<close> above. Its
  two set fields carry the prefix \<open>t_\<close>, apart from the two exported sets they hold.
\<close>

record Transformer =
  name :: string
  t_supportedInputs :: "MimeType set"
  t_supportedOutputs :: "MimeType set"
  fallbackOutput :: MimeType

definition sharpTransformer :: Transformer where
  "sharpTransformer =
    \<lparr>name = ''sharpTransformer'',
     t_supportedInputs = supportedInputs,
     t_supportedOutputs = supportedOutputs,
     fallbackOutput = PNG\<rparr>"

section \<open>Reading a run\<close>

text \<open>The method calls a run has made, the throwing one included.\<close>

definition trace :: "('e, 'img) engine \<Rightarrow> TransformOptions \<Rightarrow> 8 word list \<Rightarrow> call list" where
  "trace eng opts d = fst (transform_image eng opts d)"

text \<open>
  The run has reached \<^verbatim>\<open>toBuffer\<close>: the constructor and every method call made have
  returned.
\<close>

definition returned :: "('e, 'img) engine \<Rightarrow> TransformOptions \<Rightarrow> 8 word list \<Rightarrow> bool" where
  "returned eng opts d =
    (case snd (transform_image eng opts d) of Inl e \<Rightarrow> False | Inr img \<Rightarrow> True)"

text \<open>
  The step of the pipeline a call belongs to, in the numbering of the source's
  statements: the alpha channel, the crop, the resize, the two mirrors, the rotation,
  the blur, and the encoder settings.
\<close>

fun stage :: "call \<Rightarrow> nat" where
  "stage (EnsureAlpha _) = 0"
| "stage (Extract _ _ _ _) = 1"
| "stage (Resize _ _ _ _ _) = 2"
| "stage Flop = 3"
| "stage Flip = 3"
| "stage (Rotate _ _) = 4"
| "stage (Blur _) = 5"
| "stage (Jpeg _ _ _) = 6"
| "stage (Png _ _ _) = 6"
| "stage (Gif _ _ _) = 6"
| "stage (Webp _ _) = 6"
| "stage (Tiff _ _) = 6"
| "stage (Avif _ _) = 6"



text \<open>The \<^verbatim>\<open>force\<close> flag of an encoder call; \<open>False\<close> for every other call.\<close>

fun force :: "call \<Rightarrow> bool" where
  "force (Jpeg _ _ f) = f"
| "force (Png _ _ f) = f"
| "force (Gif _ _ f) = f"
| "force (Webp _ f) = f"
| "force (Tiff _ f) = f"
| "force (Avif _ f) = f"
| "force _ = False"

fun is_rotate :: "call \<Rightarrow> bool" where
  "is_rotate (Rotate _ _) = True"
| "is_rotate _ = False"

fun is_blur :: "call \<Rightarrow> bool" where
  "is_blur (Blur _) = True"
| "is_blur _ = False"

fun is_mirror :: "call \<Rightarrow> bool" where
  "is_mirror Flop = True"
| "is_mirror Flip = True"
| "is_mirror _ = False"

text \<open>
  The method calls of the statements of \<^verbatim>\<open>transform\<close>, in the order of the source and
  under the guards of the source: the calls of a run in which none throws.
\<close>

definition steps :: "TransformOptions \<Rightarrow> call list" where
  "steps opts =
     [EnsureAlpha (Fin 1)]
     @ (case crop opts of None \<Rightarrow> []
        | Some c \<Rightarrow> [Extract (crop_x c) (crop_y c) (crop_width c) (crop_height c)])
     @ (if width opts \<noteq> None \<or> height opts \<noteq> None
        then [Resize (width opts) (height opts) (fit opts) (position opts)
               (fixedBackground opts)]
        else [])
     @ (case flip_opt opts of None \<Rightarrow> []
        | Some f \<Rightarrow> (if f = Horizontal \<or> f = Both then [Flop] else [])
                   @ (if f = Vertical \<or> f = Both then [Flip] else []))
     @ (case rotate_opt opts of None \<Rightarrow> []
        | Some a \<Rightarrow> if truthy a \<and> neq_zero a then [Rotate a (fixedBackground opts)] else [])
     @ (case blurRadius opts of None \<Rightarrow> []
        | Some s \<Rightarrow> if truthy s \<and> gt_zero s then [Blur s] else [])
     @ [Jpeg (quality opts) True (contentType opts = JPEG),
        Png True (compressionLevel opts) (contentType opts = PNG),
        Gif (loop opts) (delay opts) (contentType opts = GIF),
        Webp (quality opts) (contentType opts = WEBP),
        Tiff (quality opts) (contentType opts = TIFF),
        Avif (quality opts) (contentType opts = AVIF)]"

section \<open>Concrete inputs\<close>

text \<open>
  The defaults the comments of \<^verbatim>\<open>TransformOptions\<close> document, with \<^verbatim>\<open>image/png\<close> as
  the source type: nothing but the alpha channel and the encoders is asked for.
\<close>

definition defaultOptions :: TransformOptions where
  "defaultOptions =
    \<lparr>width = None, height = None, contentType = PNG, fit = Contain,
     position = PositionString ''center'',
     background = (Fin 0, Fin 0, Fin 0, Fin 0),
     quality = Fin 80, compressionLevel = Fin 9, loop = Fin 0, delay = Fin 100,
     blurRadius = None, rotate_opt = None, flip_opt = None, crop = None\<rparr>"

text \<open>Options that ask for every step: crop, resize, both mirrors, rotation and blur.\<close>

definition allStepsOptions :: TransformOptions where
  "allStepsOptions =
    defaultOptions
      \<lparr>width := Some (Fin 50),
       blurRadius := Some (Fin 2),
       rotate_opt := Some (Fin 90),
       flip_opt := Some Both,
       crop := Some \<lparr>crop_x = Fin 10, crop_y = Fin 10, crop_width = Fin 20, crop_height = Fin 20\<rparr>\<rparr>"

text \<open>The 70 bytes of a PNG file of one opaque red pixel (8-bit RGBA).\<close>

definition pngData :: "8 word list" where
  "pngData =
    [137, 80, 78, 71, 13, 10, 26, 10, 0, 0, 0, 13, 73, 72, 68, 82, 0, 0, 0, 1, 0, 0, 0, 1,
     8, 6, 0, 0, 0, 31, 21, 196, 137, 0, 0, 0, 13, 73, 68, 65, 84, 120, 218, 99, 248, 207,
     192, 240, 31, 0, 5, 0, 1, 255, 86, 199, 47, 13, 0, 0, 0, 0, 73, 69, 78, 68, 174, 66,
     96, 130]"

definition sampleInput :: Input where
  "sampleInput = \<lparr>url = ''/a.png'', data = pngData, input_contentType = PNG\<rparr>"

subsection \<open>A stand-in for the engine\<close>

text \<open>
  Closed statements need an engine. The one below follows \<^verbatim>\<open>sharp\<close> in what it refuses
  before any pixel is touched: the constructor throws on an empty buffer, and a method
  throws on a number outside the range its documentation gives (\<^verbatim>\<open>extract\<close>:
  non-negative integers; \<^verbatim>\<open>resize\<close>: positive integers or null; \<^verbatim>\<open>rotate\<close>: a
  number; \<^verbatim>\<open>blur\<close>: 0.3 to 1000; \<^verbatim>\<open>quality\<close>: integers 1 to 100;
  \<^verbatim>\<open>compressionLevel\<close>: integers 0 to 9; \<^verbatim>\<open>loop\<close> and \<^verbatim>\<open>delay\<close>: integers 0 to
  65535; \<^verbatim>\<open>ensureAlpha\<close>: 0 to 1). It checks no string and decodes nothing: its image
  object is the buffer with the settings made, and its \<^verbatim>\<open>toBuffer\<close> takes a buffer
  that starts with the PNG signature and answers with that buffer in place of the
  encoded bytes. No theorem about all engines depends on it.
\<close>

datatype engine_error = EmptyInput | InvalidParameter call | UnsupportedImage

record image_object =
  input :: "8 word list"
  animated :: bool
  settings :: "call list"

fun in_range :: "number \<Rightarrow> real \<Rightarrow> real \<Rightarrow> bool" where
  "in_range (Fin v) lo hi = (lo \<le> v \<and> v \<le> hi)"
| "in_range _ lo hi = False"

fun int_in_range :: "number \<Rightarrow> real \<Rightarrow> real \<Rightarrow> bool" where
  "int_in_range (Fin v) lo hi = (of_int \<lfloor>v\<rfloor> = v \<and> lo \<le> v \<and> v \<le> hi)"
| "int_in_range _ lo hi = False"

fun nonneg_integer :: "number \<Rightarrow> bool" where
  "nonneg_integer (Fin v) = (of_int \<lfloor>v\<rfloor> = v \<and> 0 \<le> v)"
| "nonneg_integer _ = False"

fun pos_integer_or_null :: "number option \<Rightarrow> bool" where
  "pos_integer_or_null None = True"
| "pos_integer_or_null (Some (Fin v)) = (of_int \<lfloor>v\<rfloor> = v \<and> 0 < v)"
| "pos_integer_or_null (Some _) = False"

fun accepts :: "call \<Rightarrow> bool" where
  "accepts (EnsureAlpha a) = in_range a 0 1"
| "accepts (Extract l t w h) =
     (nonneg_integer l \<and> nonneg_integer t \<and> nonneg_integer w \<and> nonneg_integer h)"
| "accepts (Resize w h _ _ _) = (pos_integer_or_null w \<and> pos_integer_or_null h)"
| "accepts Flop = True"
| "accepts Flip = True"
| "accepts (Rotate a _) = (a \<noteq> NaN)"
| "accepts (Blur s) = in_range s (3 / 10) 1000"
| "accepts (Jpeg q _ _) = int_in_range q 1 100"
| "accepts (Png _ l _) = int_in_range l 0 9"
| "accepts (Gif l dl _) = (int_in_range l 0 65535 \<and> int_in_range dl 0 65535)"
| "accepts (Webp q _) = int_in_range q 1 100"
| "accepts (Tiff q _) = int_in_range q 1 100"
| "accepts (Avif q _) = int_in_range q 1 100"

definition checkingEngine :: "(engine_error, image_object) engine" where
  "checkingEngine =
    \<lparr>sharp = (\<lambda>d a. if d = [] then Inl EmptyInput
                     else Inr \<lparr>input = d, animated = a, settings = []\<rparr>),
     method_call = (\<lambda>c img. if accepts c then Inr (img\<lparr>settings := settings img @ [c]\<rparr>)
                             else Inl (InvalidParameter c)),
     toBuffer = (\<lambda>img. if take 8 (input img) = [137, 80, 78, 71, 13, 10, 26, 10]
                        then Inr (input img) else Inl UnsupportedImage)\<rparr>"

section \<open>Runs and the calls they make\<close>

subsection \<open>A sequence of method calls\<close>

lemma fold_invoke_ended: "fold (invoke eng) cs (made, Inl e) = (made, Inl e)"
  by (induction cs) simp_all

lemma fold_invoke_prefix: "prefix (fst (fold (invoke eng) cs (made, x))) (made @ cs)"
proof (induction cs arbitrary: made x)
  case Nil
  then show ?case by simp
next
  case (Cons c cs)
  show ?case
  proof (cases x)
    case (Inl e)
    then show ?thesis by (simp add: fold_invoke_ended)
  next
    case (Inr img)
    with Cons.IH [of "made @ [c]" "method_call eng c img"] show ?thesis by simp
  qed
qed


lemma fold_invoke_returned:
  "snd (fold (invoke eng) cs (made, x)) = Inr img
    \<Longrightarrow> fst (fold (invoke eng) cs (made, x)) = made @ cs"
proof (induction cs arbitrary: made x)
  case Nil
  then show ?case by simp
next
  case (Cons c cs)
  show ?case
  proof (cases x)
    case (Inl e)
    with Cons.prems show ?thesis by (simp add: fold_invoke_ended)
  next
    case (Inr img')
    with Cons.prems Cons.IH [of "made @ [c]" "method_call eng c img'"] show ?thesis by simp
  qed
qed

subsection \<open>The statements of transform as a sequence of calls\<close>

lemma fold_if_step:
  "fold f (if b then [c] else []) r = (if b then f c r else r)"
  by simp

lemma fold_option_step:
  "fold f (case x of None \<Rightarrow> [] | Some v \<Rightarrow> [g v]) r
     = (case x of None \<Rightarrow> r | Some v \<Rightarrow> f (g v) r)"
  by (cases x) simp_all

lemma fold_option_if_step:
  "fold f (case x of None \<Rightarrow> [] | Some v \<Rightarrow> if p v then [g v] else []) r
     = (case x of None \<Rightarrow> r | Some v \<Rightarrow> if p v then f (g v) r else r)"
  by (cases x) simp_all

lemma fold_flip_step:
  "fold f (case x of None \<Rightarrow> []
           | Some v \<Rightarrow> (if p v then [c1] else []) @ (if q v then [c2] else [])) r
     = (case x of None \<Rightarrow> r
        | Some v \<Rightarrow> if q v then f c2 (if p v then f c1 r else r)
                    else (if p v then f c1 r else r))"
  by (cases x) simp_all

lemma fold_append_step: "fold f (xs @ ys) r = fold f ys (fold f xs r)"
  by simp

lemma fold_Cons_step: "fold f (x # xs) r = fold f xs (f x r)"
  by simp

lemma fold_Nil_step: "fold f [] r = r"
  by simp

lemma transform_image_fold:
  "transform_image eng opts d = fold (invoke eng) (steps opts) (sharp_new eng d True)"
  unfolding transform_image_def steps_def Let_def
  by (simp only: fold_append_step fold_Cons_step fold_Nil_step fold_if_step fold_option_step
        fold_option_if_step fold_flip_step)

lemma trace_prefix: "prefix (trace eng opts d) (steps opts)"
  using fold_invoke_prefix [of eng "steps opts" "[]" "sharp eng d True"]
  by (simp add: trace_def transform_image_fold sharp_new_def)

lemma trace_returned: "returned eng opts d \<Longrightarrow> trace eng opts d = steps opts"
proof -
  assume "returned eng opts d"
  then obtain img where "snd (transform_image eng opts d) = Inr img"
    by (auto simp add: returned_def split: sum.splits)
  then have "snd (fold (invoke eng) (steps opts) ([], sharp eng d True)) = Inr img"
    by (simp add: transform_image_fold sharp_new_def)
  from fold_invoke_returned [OF this] show ?thesis
    by (simp add: trace_def transform_image_fold sharp_new_def)
qed



subsection \<open>The calls of the statements, by stage\<close>

lemma sorted_const_stage: "\<forall>c\<in>set xs. stage c = k \<Longrightarrow> sorted (map stage xs)"
  by (induction xs) auto

lemma sorted_stage_chain:
  assumes "\<forall>c\<in>set A0. stage c = 0"
    and "\<forall>c\<in>set A1. stage c = 1"
    and "\<forall>c\<in>set A2. stage c = 2"
    and "\<forall>c\<in>set A3. stage c = 3"
    and "\<forall>c\<in>set A4. stage c = 4"
    and "\<forall>c\<in>set A5. stage c = 5"
    and "\<forall>c\<in>set A6. stage c = 6"
  shows "sorted (map stage (A0 @ A1 @ A2 @ A3 @ A4 @ A5 @ A6))"
proof -
  have "sorted (map stage A0)" "sorted (map stage A1)" "sorted (map stage A2)"
    "sorted (map stage A3)" "sorted (map stage A4)" "sorted (map stage A5)"
    "sorted (map stage A6)"
    using assms by (blast intro: sorted_const_stage)+
  with assms show ?thesis
    by (auto simp add: sorted_append)
qed

lemma steps_sorted: "sorted (map stage (steps opts))"
  unfolding steps_def
proof (rule sorted_stage_chain)
  show "\<forall>c\<in>set [EnsureAlpha (Fin 1)]. stage c = 0"
    by simp
  show "\<forall>c\<in>set (case crop opts of None \<Rightarrow> []
        | Some c \<Rightarrow> [Extract (crop_x c) (crop_y c) (crop_width c) (crop_height c)]). stage c = 1"
    by (auto split: option.splits)
  show "\<forall>c\<in>set (if width opts \<noteq> None \<or> height opts \<noteq> None
        then [Resize (width opts) (height opts) (fit opts) (position opts)
               (fixedBackground opts)]
        else []). stage c = 2"
    by (auto split: if_splits)
  show "\<forall>c\<in>set (case flip_opt opts of None \<Rightarrow> []
        | Some f \<Rightarrow> (if f = Horizontal \<or> f = Both then [Flop] else [])
                   @ (if f = Vertical \<or> f = Both then [Flip] else [])). stage c = 3"
    by (auto split: option.splits if_splits)
  show "\<forall>c\<in>set (case rotate_opt opts of None \<Rightarrow> []
        | Some a \<Rightarrow> if truthy a \<and> neq_zero a then [Rotate a (fixedBackground opts)] else []).
          stage c = 4"
    by (auto split: option.splits if_splits)
  show "\<forall>c\<in>set (case blurRadius opts of None \<Rightarrow> []
        | Some s \<Rightarrow> if truthy s \<and> gt_zero s then [Blur s] else []). stage c = 5"
    by (auto split: option.splits if_splits)
  show "\<forall>c\<in>set [Jpeg (quality opts) True (contentType opts = JPEG),
        Png True (compressionLevel opts) (contentType opts = PNG),
        Gif (loop opts) (delay opts) (contentType opts = GIF),
        Webp (quality opts) (contentType opts = WEBP),
        Tiff (quality opts) (contentType opts = TIFF),
        Avif (quality opts) (contentType opts = AVIF)]. stage c = 6"
    by auto
qed



lemma steps_rotate:
  "filter is_rotate (steps opts) =
     (case rotate_opt opts of None \<Rightarrow> []
      | Some a \<Rightarrow> if truthy a \<and> neq_zero a then [Rotate a (fixedBackground opts)] else [])"
  by (simp add: steps_def split: option.split)

lemma steps_blur:
  "filter is_blur (steps opts) =
     (case blurRadius opts of None \<Rightarrow> []
      | Some s \<Rightarrow> if truthy s \<and> gt_zero s then [Blur s] else [])"
  by (simp add: steps_def split: option.split)

lemma steps_mirror:
  "filter is_mirror (steps opts) =
     (case flip_opt opts of
        None \<Rightarrow> []
      | Some Horizontal \<Rightarrow> [Flop]
      | Some Vertical \<Rightarrow> [Flip]
      | Some Both \<Rightarrow> [Flop, Flip])"
  by (simp add: steps_def split: option.split FlipDirection.split)





lemma prefix_singleton: "prefix xs [y] = (xs = [] \<or> xs = [y])"
  by (cases xs) auto

lemma not_gt_zero_if_lt_zero: "lt_zero s \<Longrightarrow> \<not> gt_zero s"
  by (cases s) auto

subsection \<open>Runs that get past a stage\<close>

lemma filter_trace_past:
  assumes P: "\<forall>x\<in>set (steps opts). P x \<longrightarrow> stage x \<le> k"
    and c: "c \<in> set (trace eng opts d)"
    and later: "k < stage c"
  shows "filter P (trace eng opts d) = filter P (steps opts)"
proof -
  from trace_prefix [of eng opts d] obtain rest where rest: "steps opts = trace eng opts d @ rest"
    by (auto elim: prefixE)
  from steps_sorted [of opts] rest
  have "\<forall>x\<in>set (trace eng opts d). \<forall>y\<in>set rest. stage x \<le> stage y"
    by (simp add: sorted_append)
  with c later have "\<forall>y\<in>set rest. k < stage y"
    by fastforce
  moreover from P rest have "\<forall>y\<in>set rest. P y \<longrightarrow> stage y \<le> k"
    by simp
  ultimately have "\<forall>y\<in>set rest. \<not> P y"
    by fastforce
  then have "filter P rest = []"
    by (simp add: filter_empty_conv)
  with rest show ?thesis
    by simp
qed

lemma returned_past: "returned eng opts d \<Longrightarrow> \<exists>c\<in>set (trace eng opts d). stage c = 6"
proof -
  assume "returned eng opts d"
  then have "trace eng opts d = steps opts"
    by (rule trace_returned)
  moreover have "Jpeg (quality opts) True (contentType opts = JPEG) \<in> set (steps opts)"
    by (simp add: steps_def)
  ultimately show ?thesis
    by force
qed

lemma is_rotate_stage: "is_rotate c = (stage c = 4)"
  by (cases c) simp_all

lemma is_blur_stage: "is_blur c = (stage c = 5)"
  by (cases c) simp_all

lemma is_mirror_stage: "is_mirror c = (stage c = 3)"
  by (cases c) simp_all

lemma rotate_reached:
  assumes "c \<in> set (trace eng opts d)" and "4 \<le> stage c"
  shows "filter is_rotate (trace eng opts d) = filter is_rotate (steps opts)"
proof (cases "stage c = 4")
  case True
  with assms(1) have "filter is_rotate (trace eng opts d) \<noteq> []"
    by (auto simp add: filter_empty_conv is_rotate_stage)
  moreover have "prefix (filter is_rotate (trace eng opts d)) (filter is_rotate (steps opts))"
    by (rule filter_mono_prefix [OF trace_prefix])
  ultimately show ?thesis
    by (auto simp add: steps_rotate prefix_singleton split: option.splits if_splits)
next
  case False
  with assms(2) have "4 < stage c"
    by simp
  with assms(1) show ?thesis
    by (intro filter_trace_past [where k = 4]) (simp_all add: is_rotate_stage)
qed

lemma blur_reached:
  assumes "c \<in> set (trace eng opts d)" and "5 \<le> stage c"
  shows "filter is_blur (trace eng opts d) = filter is_blur (steps opts)"
proof (cases "stage c = 5")
  case True
  with assms(1) have "filter is_blur (trace eng opts d) \<noteq> []"
    by (auto simp add: filter_empty_conv is_blur_stage)
  moreover have "prefix (filter is_blur (trace eng opts d)) (filter is_blur (steps opts))"
    by (rule filter_mono_prefix [OF trace_prefix])
  ultimately show ?thesis
    by (auto simp add: steps_blur prefix_singleton split: option.splits if_splits)
next
  case False
  with assms(2) have "5 < stage c"
    by simp
  with assms(1) show ?thesis
    by (intro filter_trace_past [where k = 5]) (simp_all add: is_blur_stage)
qed

lemma mirrors_passed:
  assumes "c \<in> set (trace eng opts d)" and "3 < stage c"
  shows "filter is_mirror (trace eng opts d) = filter is_mirror (steps opts)"
  using assms by (intro filter_trace_past [where k = 3]) (simp_all add: is_mirror_stage)


subsection \<open>Runs of the stand-in engine\<close>

lemma checkingEngine_sharp:
  "sharp checkingEngine d a =
     (if d = [] then Inl EmptyInput else Inr \<lparr>input = d, animated = a, settings = []\<rparr>)"
  by (simp add: checkingEngine_def)

lemma checkingEngine_method_call:
  "method_call checkingEngine c img =
     (if accepts c then Inr (img\<lparr>settings := settings img @ [c]\<rparr>)
      else Inl (InvalidParameter c))"
  by (simp add: checkingEngine_def)

lemma checkingEngine_toBuffer:
  "toBuffer checkingEngine img =
     (if take 8 (input img) = [137, 80, 78, 71, 13, 10, 26, 10] then Inr (input img)
      else Inl UnsupportedImage)"
  by (simp add: checkingEngine_def)

lemmas run_simps =
  trace_def returned_def transform_image_fold sharp_new_def steps_def fixedBackground_def
  checkingEngine_sharp checkingEngine_method_call checkingEngine_toBuffer
  defaultOptions_def allStepsOptions_def pngData_def sampleInput_def

section \<open>The claims\<close>

subsection \<open>Output types outside the supported set\<close>




subsection \<open>The order of the steps\<close>




subsection \<open>The encoder settings\<close>




subsection \<open>Rotation\<close>

text \<open>
  C5, as stated, at \<^verbatim>\<open>rotate = NaN\<close> and at \<^verbatim>\<open>rotate\<close> 90 with \<^verbatim>\<open>width\<close> 0. At
  \<^verbatim>\<open>NaN\<close> the field is present and \<^verbatim>\<open>NaN != 0\<close> holds, but \<^verbatim>\<open>NaN\<close> is falsy, so the
  guard \<^verbatim>\<open>rotate && rotate != 0\<close> fails: no call throws and \<^verbatim>\<open>rotate\<close> is not called.
  At width 0 \<^verbatim>\<open>resize\<close> throws, and the run ends before the rotation.
\<close>

theorem rotate_not_invoked:
  "rotate_opt (defaultOptions\<lparr>rotate_opt := Some NaN\<rparr>) = Some NaN
   \<and> NaN \<noteq> Fin 0
   \<and> neq_zero NaN
   \<and> returned checkingEngine (defaultOptions\<lparr>rotate_opt := Some NaN\<rparr>) pngData
   \<and> filter is_rotate (trace checkingEngine (defaultOptions\<lparr>rotate_opt := Some NaN\<rparr>) pngData)
       = []
   \<and> filter is_rotate
        (trace checkingEngine
          (defaultOptions\<lparr>width := Some (Fin 0), rotate_opt := Some (Fin 90)\<rparr>) pngData)
       = []"
  by (simp add: run_simps)

text \<open>
  C5, amended: when \<^verbatim>\<open>rotate\<close> is null, 0 or \<^verbatim>\<open>NaN\<close>, no run calls the engine's
  \<^verbatim>\<open>rotate\<close>. When it is any other number, a run calls \<^verbatim>\<open>rotate\<close> at most once, with
  that angle and with the background colour of the options as fill; it calls it exactly
  once unless a call that throws ends it before the rotation, that is, when it makes a
  call of the rotation stage or of a later one, and so whenever no call throws.
\<close>

theorem rotate_invoked_iff:
  "(rotate_opt opts = None \<or> rotate_opt opts = Some (Fin 0) \<or> rotate_opt opts = Some NaN
      \<longrightarrow> filter is_rotate (trace eng opts d) = [])
   \<and> (rotate_opt opts = Some a \<and> a \<noteq> Fin 0 \<and> a \<noteq> NaN
      \<longrightarrow> (filter is_rotate (trace eng opts d) = []
            \<or> filter is_rotate (trace eng opts d) = [Rotate a (fixedBackground opts)])
          \<and> (returned eng opts d \<or> (\<exists>c\<in>set (trace eng opts d). 4 \<le> stage c)
              \<longrightarrow> filter is_rotate (trace eng opts d) = [Rotate a (fixedBackground opts)]))"
proof -
  let ?tr = "trace eng opts d"
  have p: "prefix (filter is_rotate ?tr) (filter is_rotate (steps opts))"
    by (rule filter_mono_prefix [OF trace_prefix])
  have a: "filter is_rotate ?tr = []"
    if "rotate_opt opts = None \<or> rotate_opt opts = Some (Fin 0) \<or> rotate_opt opts = Some NaN"
  proof -
    from that have "filter is_rotate (steps opts) = []"
      by (auto simp add: steps_rotate)
    with p show ?thesis
      by simp
  qed
  have s: "filter is_rotate (steps opts) = [Rotate a (fixedBackground opts)]"
    if "rotate_opt opts = Some a \<and> a \<noteq> Fin 0 \<and> a \<noteq> NaN"
    using that by (cases a) (auto simp add: steps_rotate)
  have b: "filter is_rotate ?tr = [] \<or> filter is_rotate ?tr = [Rotate a (fixedBackground opts)]"
    if "rotate_opt opts = Some a \<and> a \<noteq> Fin 0 \<and> a \<noteq> NaN"
    using p s [OF that] by (simp add: prefix_singleton)
  have c: "filter is_rotate ?tr = [Rotate a (fixedBackground opts)]"
    if "rotate_opt opts = Some a \<and> a \<noteq> Fin 0 \<and> a \<noteq> NaN"
      and "returned eng opts d \<or> (\<exists>c\<in>set ?tr. 4 \<le> stage c)"
  proof -
    from that(2) returned_past [of eng opts d] obtain c where "c \<in> set ?tr" "4 \<le> stage c"
      by fastforce
    then have "filter is_rotate ?tr = filter is_rotate (steps opts)"
      by (rule rotate_reached)
    with s [OF that(1)] show ?thesis
      by simp
  qed
  from a b c show ?thesis
    by blast
qed

theorem rotate_invoked_iff_witness:
  "returned checkingEngine (defaultOptions\<lparr>rotate_opt := Some (Fin 90)\<rparr>) pngData
   \<and> filter is_rotate (trace checkingEngine (defaultOptions\<lparr>rotate_opt := Some (Fin 90)\<rparr>) pngData)
     = [Rotate (Fin 90) \<lparr>rgba_r = Fin 0, rgba_g = Fin 0, rgba_b = Fin 0, rgba_alpha = Fin 0\<rparr>]
   \<and> filter is_rotate (trace checkingEngine (defaultOptions\<lparr>rotate_opt := Some (Fin 0)\<rparr>) pngData)
     = []"
proof -
  let ?o90 = "defaultOptions\<lparr>rotate_opt := Some (Fin 90)\<rparr>"
  let ?o0 = "defaultOptions\<lparr>rotate_opt := Some (Fin 0)\<rparr>"
  have r: "returned checkingEngine ?o90 pngData"
    by (simp add: run_simps)
  have h90: "rotate_opt ?o90 = Some (Fin 90) \<and> Fin 90 \<noteq> Fin 0 \<and> Fin 90 \<noteq> NaN"
    by simp
  have h0: "rotate_opt ?o0 = Some (Fin 0)"
    by simp
  have bg: "fixedBackground ?o90
      = \<lparr>rgba_r = Fin 0, rgba_g = Fin 0, rgba_b = Fin 0, rgba_alpha = Fin 0\<rparr>"
    by (simp add: fixedBackground_def defaultOptions_def)
  from rotate_invoked_iff [of ?o90 checkingEngine pngData "Fin 90"]
    rotate_invoked_iff [of ?o0 checkingEngine pngData "Fin 90"] r h90 h0
  show ?thesis
    unfolding bg by blast
qed

subsection \<open>Blur\<close>

text \<open>
  C6, as stated, at \<^verbatim>\<open>blurRadius\<close> 2 with \<^verbatim>\<open>width\<close> 0: the radius is greater than 0,
  but \<^verbatim>\<open>resize\<close> throws on the width and the run ends before the blur.
\<close>

theorem blur_not_invoked:
  "blurRadius (defaultOptions\<lparr>width := Some (Fin 0), blurRadius := Some (Fin 2)\<rparr>) = Some (Fin 2)
   \<and> gt_zero (Fin 2)
   \<and> filter is_blur
        (trace checkingEngine
          (defaultOptions\<lparr>width := Some (Fin 0), blurRadius := Some (Fin 2)\<rparr>) pngData)
       = []"
  by (simp add: run_simps)

text \<open>
  C6, amended: when \<^verbatim>\<open>blurRadius\<close> is null or 0, no run calls \<^verbatim>\<open>blur\<close>. When it is a
  number greater than 0, a run calls \<^verbatim>\<open>blur\<close> at most once, with that radius; it
  calls it exactly once unless a call that throws ends it before the blur, that is, when
  it makes a call of the blur stage or of a later one, and so whenever no call throws.
\<close>

theorem blur_invoked_iff:
  "(blurRadius opts = None \<or> blurRadius opts = Some (Fin 0)
      \<longrightarrow> filter is_blur (trace eng opts d) = [])
   \<and> (blurRadius opts = Some s \<and> gt_zero s
      \<longrightarrow> (filter is_blur (trace eng opts d) = []
            \<or> filter is_blur (trace eng opts d) = [Blur s])
          \<and> (returned eng opts d \<or> (\<exists>c\<in>set (trace eng opts d). 5 \<le> stage c)
              \<longrightarrow> filter is_blur (trace eng opts d) = [Blur s]))"
proof -
  let ?tr = "trace eng opts d"
  have p: "prefix (filter is_blur ?tr) (filter is_blur (steps opts))"
    by (rule filter_mono_prefix [OF trace_prefix])
  have a: "filter is_blur ?tr = []"
    if "blurRadius opts = None \<or> blurRadius opts = Some (Fin 0)"
  proof -
    from that have "filter is_blur (steps opts) = []"
      by (auto simp add: steps_blur)
    with p show ?thesis
      by simp
  qed
  have s: "filter is_blur (steps opts) = [Blur s]" if "blurRadius opts = Some s \<and> gt_zero s"
    using that by (cases s) (auto simp add: steps_blur)
  have b: "filter is_blur ?tr = [] \<or> filter is_blur ?tr = [Blur s]"
    if "blurRadius opts = Some s \<and> gt_zero s"
    using p s [OF that] by (simp add: prefix_singleton)
  have c: "filter is_blur ?tr = [Blur s]"
    if "blurRadius opts = Some s \<and> gt_zero s"
      and "returned eng opts d \<or> (\<exists>c\<in>set ?tr. 5 \<le> stage c)"
  proof -
    from that(2) returned_past [of eng opts d] obtain c where "c \<in> set ?tr" "5 \<le> stage c"
      by fastforce
    then have "filter is_blur ?tr = filter is_blur (steps opts)"
      by (rule blur_reached)
    with s [OF that(1)] show ?thesis
      by simp
  qed
  from a b c show ?thesis
    by blast
qed

theorem blur_invoked_iff_witness:
  "returned checkingEngine (defaultOptions\<lparr>blurRadius := Some (Fin 2)\<rparr>) pngData
   \<and> filter is_blur (trace checkingEngine (defaultOptions\<lparr>blurRadius := Some (Fin 2)\<rparr>) pngData)
     = [Blur (Fin 2)]
   \<and> filter is_blur (trace checkingEngine (defaultOptions\<lparr>blurRadius := Some (Fin 0)\<rparr>) pngData)
     = []"
proof -
  let ?o2 = "defaultOptions\<lparr>blurRadius := Some (Fin 2)\<rparr>"
  let ?o0 = "defaultOptions\<lparr>blurRadius := Some (Fin 0)\<rparr>"
  have r: "returned checkingEngine ?o2 pngData"
    by (simp add: run_simps)
  have h2: "blurRadius ?o2 = Some (Fin 2) \<and> gt_zero (Fin 2)"
    by simp
  have h0: "blurRadius ?o0 = Some (Fin 0)"
    by simp
  from blur_invoked_iff [of ?o2 checkingEngine pngData "Fin 2"]
    blur_invoked_iff [of ?o0 checkingEngine pngData "Fin 2"] r h2 h0
  show ?thesis
    by blast
qed

text \<open>
  C10: when \<^verbatim>\<open>blurRadius\<close> is a negative number, the run never calls \<^verbatim>\<open>blur\<close>, and it
  goes on as if the radius were null: the run, and so the outcome of \<^verbatim>\<open>transform\<close>, is
  the one for the same options without a blur radius.
\<close>

theorem negative_blur_skipped:
  "blurRadius opts = Some s \<Longrightarrow> lt_zero s \<Longrightarrow>
     filter is_blur (trace eng opts d) = []
     \<and> transform_image eng opts d = transform_image eng (opts\<lparr>blurRadius := None\<rparr>) d
     \<and> transform eng inp opts = transform eng inp (opts\<lparr>blurRadius := None\<rparr>)"
proof -
  assume b: "blurRadius opts = Some s" and neg: "lt_zero s"
  from neg have ngt: "\<not> gt_zero s"
    by (rule not_gt_zero_if_lt_zero)
  have same_steps: "steps opts = steps (opts\<lparr>blurRadius := None\<rparr>)"
    using b ngt by (simp add: steps_def fixedBackground_def split: option.split)
  have "filter is_blur (steps opts) = []"
    using b ngt by (simp add: steps_blur)
  with filter_mono_prefix [OF trace_prefix, of is_blur eng opts d]
  have no_blur: "filter is_blur (trace eng opts d) = []"
    by simp
  have same: "transform_image eng opts d' = transform_image eng (opts\<lparr>blurRadius := None\<rparr>) d'"
    for d'
    by (simp only: transform_image_fold same_steps)
  have "transform eng inp opts = transform eng inp (opts\<lparr>blurRadius := None\<rparr>)"
    unfolding transform_def by (simp only: same)
  with no_blur same show ?thesis
    by simp
qed

theorem negative_blur_skipped_witness:
  "blurRadius (defaultOptions\<lparr>blurRadius := Some (Fin (- 3))\<rparr>) = Some (Fin (- 3))
   \<and> lt_zero (Fin (- 3))
   \<and> filter is_blur
        (trace checkingEngine (defaultOptions\<lparr>blurRadius := Some (Fin (- 3))\<rparr>) pngData)
       = []
   \<and> transform checkingEngine sampleInput (defaultOptions\<lparr>blurRadius := Some (Fin (- 3))\<rparr>)
       = transform checkingEngine sampleInput defaultOptions"
proof -
  let ?opts = "defaultOptions\<lparr>blurRadius := Some (Fin (- 3))\<rparr>"
  have h1: "blurRadius ?opts = Some (Fin (- 3))"
    by simp
  have h2: "lt_zero (Fin (- 3))"
    by simp
  have upd: "?opts\<lparr>blurRadius := None\<rparr> = defaultOptions"
    by (simp add: defaultOptions_def)
  note r = negative_blur_skipped [OF h1 h2, of checkingEngine pngData sampleInput, unfolded upd]
  from r h1 h2 show ?thesis
    by blast
qed

subsection \<open>Mirroring\<close>

text \<open>
  C7, as stated, at \<^verbatim>\<open>flip = both\<close> with \<^verbatim>\<open>width\<close> 0: \<^verbatim>\<open>resize\<close> throws on the width
  and the run ends before the mirrors, so neither is called.
\<close>

theorem mirrors_not_invoked:
  "flip_opt (defaultOptions\<lparr>width := Some (Fin 0), flip_opt := Some Both\<rparr>) = Some Both
   \<and> filter is_mirror
        (trace checkingEngine
          (defaultOptions\<lparr>width := Some (Fin 0), flip_opt := Some Both\<rparr>) pngData)
       = []"
  by (simp add: run_simps)

text \<open>
  C7, amended: the mirror calls of a run that gets past the mirrors (it makes a call of
  a later stage), and so of every run in which no call throws, are none when
  \<^verbatim>\<open>flip\<close> is null, \<^verbatim>\<open>flop\<close> (left-right) alone for \<^verbatim>\<open>horizontal\<close>, \<^verbatim>\<open>flip\<close>
  (top-bottom) alone for \<^verbatim>\<open>vertical\<close>, and for \<^verbatim>\<open>both\<close> the two of them, \<^verbatim>\<open>flop\<close>
  first and \<^verbatim>\<open>flip\<close> second, as two steps. The mirror calls of any run are an initial
  part of these: no run calls a mirror that \<^verbatim>\<open>flip\<close> does not ask for, or calls
  \<^verbatim>\<open>flip\<close> before \<^verbatim>\<open>flop\<close>.
\<close>

theorem flip_steps:
  "prefix (filter is_mirror (trace eng opts d))
     (case flip_opt opts of
        None \<Rightarrow> []
      | Some Horizontal \<Rightarrow> [Flop]
      | Some Vertical \<Rightarrow> [Flip]
      | Some Both \<Rightarrow> [Flop, Flip])
   \<and> (returned eng opts d \<or> (\<exists>c\<in>set (trace eng opts d). 3 < stage c) \<longrightarrow>
        filter is_mirror (trace eng opts d) =
          (case flip_opt opts of
             None \<Rightarrow> []
           | Some Horizontal \<Rightarrow> [Flop]
           | Some Vertical \<Rightarrow> [Flip]
           | Some Both \<Rightarrow> [Flop, Flip]))"
proof
  show "prefix (filter is_mirror (trace eng opts d))
     (case flip_opt opts of None \<Rightarrow> [] | Some Horizontal \<Rightarrow> [Flop]
      | Some Vertical \<Rightarrow> [Flip] | Some Both \<Rightarrow> [Flop, Flip])"
    using filter_mono_prefix [OF trace_prefix, of is_mirror eng opts d]
    by (simp only: steps_mirror)
  show "returned eng opts d \<or> (\<exists>c\<in>set (trace eng opts d). 3 < stage c) \<longrightarrow>
        filter is_mirror (trace eng opts d) =
          (case flip_opt opts of None \<Rightarrow> [] | Some Horizontal \<Rightarrow> [Flop]
           | Some Vertical \<Rightarrow> [Flip] | Some Both \<Rightarrow> [Flop, Flip])"
  proof
    assume "returned eng opts d \<or> (\<exists>c\<in>set (trace eng opts d). 3 < stage c)"
    with returned_past [of eng opts d] obtain c where "c \<in> set (trace eng opts d)" "3 < stage c"
      by fastforce
    then have "filter is_mirror (trace eng opts d) = filter is_mirror (steps opts)"
      by (rule mirrors_passed)
    then show "filter is_mirror (trace eng opts d) =
          (case flip_opt opts of None \<Rightarrow> [] | Some Horizontal \<Rightarrow> [Flop]
           | Some Vertical \<Rightarrow> [Flip] | Some Both \<Rightarrow> [Flop, Flip])"
      by (simp only: steps_mirror)
  qed
qed

theorem flip_steps_witness:
  "returned checkingEngine (defaultOptions\<lparr>flip_opt := Some Both\<rparr>) pngData
   \<and> filter is_mirror (trace checkingEngine (defaultOptions\<lparr>flip_opt := Some Both\<rparr>) pngData)
     = [Flop, Flip]"
proof -
  let ?opts = "defaultOptions\<lparr>flip_opt := Some Both\<rparr>"
  have r: "returned checkingEngine ?opts pngData"
    by (simp add: run_simps)
  from flip_steps [of checkingEngine ?opts pngData] r show ?thesis
    by simp
qed

subsection \<open>The url of the input\<close>

text \<open>
  C8: two calls of \<^verbatim>\<open>transform\<close> on the same engine with the same options, whose inputs
  have the same \<^verbatim>\<open>data\<close>, have the same outcome, whatever their \<^verbatim>\<open>url\<close> fields are:
  the url is never read.
\<close>

theorem transform_ignores_url:
  "data i1 = data i2 \<Longrightarrow> transform eng i1 opts = transform eng i2 opts"
  by (simp add: transform_def)

theorem transform_ignores_url_witness:
  "data sampleInput = data (sampleInput\<lparr>url := ''/b.png''\<rparr>)
   \<and> url sampleInput \<noteq> url (sampleInput\<lparr>url := ''/b.png''\<rparr>)
   \<and> transform checkingEngine sampleInput defaultOptions
       = transform checkingEngine (sampleInput\<lparr>url := ''/b.png''\<rparr>) defaultOptions"
  using transform_ignores_url [of sampleInput "sampleInput\<lparr>url := ''/b.png''\<rparr>"
      checkingEngine defaultOptions]
  by (simp add: sampleInput_def)

subsection \<open>The fallback output\<close>

text \<open>
  C9: the fallback output of the descriptor is \<^verbatim>\<open>image/png\<close>, and it is one of the
  descriptor's supported outputs.
\<close>

theorem fallbackOutput_supported:
  "fallbackOutput sharpTransformer = PNG
   \<and> fallbackOutput sharpTransformer \<in> t_supportedOutputs sharpTransformer"
  by (simp add: sharpTransformer_def supportedOutputs_def)

end
